theory Spec2Isabelle
  imports Complex_Main "HOL-Library.AList"
begin

section \<open>The admission proxy of EnvolveAI.Bot (api-proxy/cloudflare-worker.js)\<close>

text \<open>
  The worker is a single request handler \<open>fetch\<close> in front of the Gemini API, with a
  module-level \<open>Map\<close> of rate-limit records. The handler is modelled as a function from
  the request, the two clock readings and the current contents of the map to the
  response, the upstream calls it issued, what it wrote to the console and the new
  contents of the map. One invocation is modelled as running to its end before the next
  one touches the map.
\<close>

subsection \<open>Configuration\<close>

definition ALLOWED_ORIGINS :: "string list" where
  "ALLOWED_ORIGINS =
     [''https://envolveai.bot'',
      ''https://www.envolveai.bot'',
      ''http://localhost:5500'',
      ''http://127.0.0.1:5500'']"

definition RATE_LIMIT_REQUESTS :: nat where
  "RATE_LIMIT_REQUESTS = 30"

definition RATE_LIMIT_WINDOW :: int where
  "RATE_LIMIT_WINDOW = 60 * 1000"

subsection \<open>The JavaScript \<open>Map\<close> holding the rate-limit records\<close>

text \<open>
  A \<open>Map\<close> keeps its entries in insertion order and holds each key once. It is modelled
  as the list of its entries; \<open>Map_wf\<close> is the invariant that no key occurs twice.
  \<open>set\<close> on a present key replaces the value in place, on a new key it appends.
\<close>

record RateRecord =
  count :: nat
  resetAt :: int

type_synonym RateMap = "(string \<times> RateRecord) list"

definition Map_wf :: "('k \<times> 'v) list \<Rightarrow> bool" where
  "Map_wf m = distinct (map fst m)"

fun Map_get :: "('k \<times> 'v) list \<Rightarrow> 'k \<Rightarrow> 'v option" where
  "Map_get [] k = None"
| "Map_get ((k', v) # m) k = (if k' = k then Some v else Map_get m k)"

fun Map_set :: "'k \<Rightarrow> 'v \<Rightarrow> ('k \<times> 'v) list \<Rightarrow> ('k \<times> 'v) list" where
  "Map_set k v [] = [(k, v)]"
| "Map_set k v ((k', v') # m) =
     (if k' = k then (k, v) # m else (k', v') # Map_set k v m)"

fun Map_delete :: "'k \<Rightarrow> ('k \<times> 'v) list \<Rightarrow> ('k \<times> 'v) list" where
  "Map_delete k [] = []"
| "Map_delete k ((k', v') # m) =
     (if k' = k then Map_delete k m else (k', v') # Map_delete k m)"

subsection \<open>Rate limiting\<close>

text \<open>
  \<open>cleanupRateLimit\<close> reads the clock itself and walks over the entries of the map,
  deleting each entry whose \<open>resetAt\<close> lies before that reading. The loop is
  \<open>cleanup_loop\<close>: its second argument is the entries still to visit, its third the map.
  The iterator of a \<open>Map\<close> is live, but the loop deletes nothing except the entry it
  is visiting, so the entries still to visit are those the map held at the start.
\<close>

fun cleanup_loop :: "int \<Rightarrow> (string \<times> RateRecord) list \<Rightarrow> RateMap \<Rightarrow> RateMap" where
  "cleanup_loop now [] cache = cache"
| "cleanup_loop now ((key, record) # entries) cache =
     cleanup_loop now entries
       (if now > resetAt record then Map_delete key cache else cache)"

definition cleanupRateLimit :: "int \<Rightarrow> RateMap \<Rightarrow> RateMap" where
  "cleanupRateLimit now rateLimitCache = cleanup_loop now rateLimitCache rateLimitCache"

definition rate_key :: "string \<Rightarrow> string" where
  "rate_key ip = ''rate_'' @ ip"

definition fresh_record :: "int \<Rightarrow> RateRecord" where
  "fresh_record now = \<lparr>count = 1, resetAt = now + RATE_LIMIT_WINDOW\<rparr>"

text \<open>
  \<open>checkRateLimit\<close> reads the clock (\<open>now\<close>), then calls \<open>cleanupRateLimit\<close>, which reads
  it again (\<open>swept\<close>). The result is the admission decision and the new map.
  \<open>record.count++\<close> updates the object held by the map, hence the \<open>Map_set\<close> in the last
  branch.
\<close>

definition checkRateLimit :: "int \<Rightarrow> int \<Rightarrow> string \<Rightarrow> RateMap \<Rightarrow> bool \<times> RateMap" where
  "checkRateLimit now swept ip rateLimitCache =
     (let key = rate_key ip;
          cache = cleanupRateLimit swept rateLimitCache
      in case Map_get cache key of
           None \<Rightarrow> (True, Map_set key (fresh_record now) cache)
         | Some record \<Rightarrow>
             if now > resetAt record then (True, Map_set key (fresh_record now) cache)
             else
               let record' = record\<lparr>count := count record + 1\<rparr>;
                   cache' = Map_set key record' cache
               in if count record' > RATE_LIMIT_REQUESTS then (False, cache')
                  else (True, cache'))"

subsection \<open>JavaScript values and strings\<close>

text \<open>
  A string is the list of its code units; what \<open>length\<close> and \<open>substring\<close> count are code
  units. \<open>substring\<close> and \<open>String_includes\<close> are the methods of \<open>String.prototype\<close>;
  \<open>substring\<close> clamps both indices to the length and swaps them when the first is the
  larger. It is defined for every type of code unit: the strings of the handler have
  code units of type \<open>char\<close>, and what is proved of \<open>substring\<close> holds of the 16-bit code
  units of JavaScript as well.
\<close>

definition substring :: "'c list \<Rightarrow> nat \<Rightarrow> nat \<Rightarrow> 'c list" where
  "substring s indexStart indexEnd =
     (let a = min indexStart (length s);
          b = min indexEnd (length s)
      in take (max a b - min a b) (drop (min a b) s))"

fun String_includes :: "string \<Rightarrow> string \<Rightarrow> bool" where
  "String_includes [] searchString = (searchString = [])"
| "String_includes (c # cs) searchString =
     (take (length searchString) (c # cs) = searchString \<or> String_includes cs searchString)"

text \<open>
  \<open>Array.prototype.includes\<close> on an array of strings, for an argument that is a string
  or \<open>null\<close> (\<open>None\<close>), and \<open>s?.includes(p)\<close>, which is \<open>undefined\<close>, hence falsy, when
  \<open>s\<close> is \<open>null\<close>.
\<close>

definition Array_includes :: "string list \<Rightarrow> string option \<Rightarrow> bool" where
  "Array_includes xs v = (case v of None \<Rightarrow> False | Some s \<Rightarrow> s \<in> set xs)"

definition optional_includes :: "string option \<Rightarrow> string \<Rightarrow> bool" where
  "optional_includes s searchString =
     (case s of None \<Rightarrow> False | Some v \<Rightarrow> String_includes v searchString)"

text \<open>
  The value \<open>request.json()\<close> resolves to is any JSON value; a number is given by the
  value of its double. A value read from a property is a \<open>json option\<close>, \<open>None\<close> being
  \<open>undefined\<close>.
\<close>

datatype json =
    JNull
  | JBool bool
  | JNum rat
  | JStr string
  | JArr "json list"
  | JObj "(string \<times> json) list"

text \<open>
  Reading the property \<open>message\<close> or \<open>contents\<close>: a TypeError on \<open>null\<close> (the text is
  V8's), the own property of an object, \<open>undefined\<close> on every other value, none of whose
  prototypes has a property of either name. An error is modelled by its \<open>message\<close>.
\<close>

fun get_prop :: "json \<Rightarrow> string \<Rightarrow> string + json option" where
  "get_prop JNull name =
     Inl (''Cannot read properties of null (reading '' @ [CHR 0x27] @ name @ [CHR 0x27] @ '')'')"
| "get_prop (JObj props) name = Inr (map_of props name)"
| "get_prop (JBool b) name = Inr None"
| "get_prop (JNum n) name = Inr None"
| "get_prop (JStr s) name = Inr None"
| "get_prop (JArr xs) name = Inr None"

fun truthy :: "json option \<Rightarrow> bool" where
  "truthy None = False"
| "truthy (Some JNull) = False"
| "truthy (Some (JBool b)) = b"
| "truthy (Some (JNum n)) = (n \<noteq> 0)"
| "truthy (Some (JStr s)) = (s \<noteq> [])"
| "truthy (Some (JArr xs)) = True"
| "truthy (Some (JObj props)) = True"

fun typeof :: "json option \<Rightarrow> string" where
  "typeof None = ''undefined''"
| "typeof (Some JNull) = ''object''"
| "typeof (Some (JBool b)) = ''boolean''"
| "typeof (Some (JNum n)) = ''number''"
| "typeof (Some (JStr s)) = ''string''"
| "typeof (Some (JArr xs)) = ''object''"
| "typeof (Some (JObj props)) = ''object''"

text \<open>The string behind a value whose \<open>typeof\<close> is \<open>string\<close>.\<close>

fun string_of :: "json option \<Rightarrow> string" where
  "string_of (Some (JStr s)) = s"
| "string_of v = []"

text \<open>\<open>a || b\<close> on a property value \<open>a\<close>.\<close>

fun or_else :: "json option \<Rightarrow> json \<Rightarrow> json" where
  "or_else None b = b"
| "or_else (Some a) b = (if truthy (Some a) then a else b)"

subsection \<open>Requests and responses\<close>

text \<open>
  Of a request the handler reads the method, the headers \<open>Origin\<close> and
  \<open>CF-Connecting-IP\<close> (\<open>None\<close> when \<open>headers.get\<close> returns \<open>null\<close>) and the body through
  \<open>request.json()\<close>, which either rejects with an error or resolves to a value.
\<close>

record Request =
  request_method :: string
  header_Origin :: "string option"
  header_CF_Connecting_IP :: "string option"
  body_json :: "string + json"

text \<open>
  The body of a response is held as \<open>payload\<close>: the JSON value that \<open>JSON.stringify\<close>
  writes out, or \<open>None\<close> for the \<open>null\<close> body of the preflight response.
\<close>

record Response =
  status :: nat
  headers :: "(string \<times> string) list"
  payload :: "json option"

text \<open>
  The constructor \<open>new Response(body, {status, headers})\<close> throws a RangeError for a
  status outside 200..599 and a TypeError for a body that is not \<open>null\<close> together with a
  null-body status; otherwise it yields the response. The texts of the two errors are
  those of the Workers runtime.
\<close>

definition null_body_status :: "nat \<Rightarrow> bool" where
  "null_body_status st \<longleftrightarrow> st = 101 \<or> st = 103 \<or> st = 204 \<or> st = 205 \<or> st = 304"

definition new_Response ::
  "json option \<Rightarrow> nat \<Rightarrow> (string \<times> string) list \<Rightarrow> string + Response" where
  "new_Response body st hdrs =
     (if st < 200 \<or> 599 < st
      then Inl ''Responses may only be constructed with status codes in the range 200 to 599, inclusive.''
      else if body \<noteq> None \<and> null_body_status st
      then Inl ''Response with null body status (101, 204, 205, or 304) cannot have a body.''
      else Inr \<lparr>status = st, headers = hdrs, payload = body\<rparr>)"

text \<open>
  A \<open>return\<close> of a constructed response outside the \<open>try\<close> block: the caller receives
  the response, or, had the constructor thrown, the answer of the runtime to an
  exception that escapes the handler, a status 500 with a page of its own. The statuses
  at those places are the literals 204, 405, 403, 429 and 500, which the constructor
  accepts, so no path of the handler ends in that answer
  (\<open>handler_catches_everything\<close>).
\<close>

definition uncaught_exception_response :: Response where
  "uncaught_exception_response = \<lparr>status = 500, headers = [], payload = None\<rparr>"

definition returned :: "string + Response \<Rightarrow> Response" where
  "returned result =
     (case result of Inr resp \<Rightarrow> resp | Inl err \<Rightarrow> uncaught_exception_response)"

definition handleCORS :: Response where
  "handleCORS =
     returned
       (new_Response None 204
          [(''Access-Control-Allow-Origin'', ''*''),
           (''Access-Control-Allow-Methods'', ''POST, OPTIONS''),
           (''Access-Control-Allow-Headers'', ''Content-Type''),
           (''Access-Control-Max-Age'', ''86400'')])"

text \<open>
  \<open>jsonResponse(data, status = 200, origin = '*')\<close>: the third argument is \<open>None\<close> where
  the caller leaves it out. Every caller passes a status. The body
  \<open>JSON.stringify(data)\<close> is a string, so the constructor is called with a body.
\<close>

definition jsonResponse :: "json \<Rightarrow> nat \<Rightarrow> string option \<Rightarrow> string + Response" where
  "jsonResponse data st origin =
     new_Response (Some data) st
       [(''Content-Type'', ''application/json''),
        (''Access-Control-Allow-Origin'', (case origin of None \<Rightarrow> ''*'' | Some v \<Rightarrow> v)),
        (''Access-Control-Allow-Methods'', ''POST, OPTIONS''),
        (''Access-Control-Allow-Headers'', ''Content-Type''),
        (''X-Content-Type-Options'', ''nosniff''),
        (''X-Frame-Options'', ''DENY''),
        (''X-XSS-Protection'', ''1; mode=block'')]"

text \<open>
  The upstream API: a call is what the handler passes to the global \<open>fetch\<close>; the
  network answers with an error (the promise rejects) or with a response, of which the
  handler reads the status, \<open>ok\<close>, and the body through \<open>text()\<close> or through \<open>json()\<close>, each
  of which rejects with an error (\<open>Inl\<close>) or resolves to a value.
\<close>

record UpstreamCall =
  url :: string
  call_method :: string
  call_headers :: "(string \<times> string) list"
  call_body :: json

record UpstreamResponse =
  up_status :: nat
  up_text :: "string + string"
  up_json :: "string + json"

definition ok :: "UpstreamResponse \<Rightarrow> bool" where
  "ok r = (200 \<le> up_status r \<and> up_status r \<le> 299)"

type_synonym network = "UpstreamCall \<Rightarrow> string + UpstreamResponse"

subsection \<open>The handler\<close>

definition Metodo_nao_permitido :: string where
  "Metodo_nao_permitido = ''M'' @ [CHR 0xE9] @ ''todo n'' @ [CHR 0xE3] @ ''o permitido''"

definition Origem_nao_autorizada :: string where
  "Origem_nao_autorizada = ''Origem n'' @ [CHR 0xE3] @ ''o autorizada''"

definition Mensagem_invalida :: string where
  "Mensagem_invalida = ''Mensagem inv'' @ [CHR 0xE1] @ ''lida''"

definition clientIP :: "Request \<Rightarrow> string" where
  "clientIP request =
     (case header_CF_Connecting_IP request of
        None \<Rightarrow> ''unknown''
      | Some ip \<Rightarrow> if ip = [] then ''unknown'' else ip)"

definition generationConfig :: json where
  "generationConfig =
     JObj [(''temperature'', JNum (7 / 10)),
           (''maxOutputTokens'', JNum 500),
           (''topP'', JNum (95 / 100)),
           (''topK'', JNum 40)]"

definition geminiRequest :: "json option \<Rightarrow> string \<Rightarrow> json" where
  "geminiRequest contents sanitizedMessage =
     JObj [(''contents'',
              or_else contents
                (JArr [JObj [(''parts'', JArr [JObj [(''text'', JStr sanitizedMessage)]])]])),
           (''generationConfig'', generationConfig)]"

definition gemini_call :: "string \<Rightarrow> json \<Rightarrow> UpstreamCall" where
  "gemini_call GEMINI_API_KEY req =
     \<lparr>url = ''https://generativelanguage.googleapis.com/v1beta/models/gemini-2.0-flash-exp:generateContent'',
      call_method = ''POST'',
      call_headers = [(''Content-Type'', ''application/json''), (''x-goog-api-key'', GEMINI_API_KEY)],
      call_body = req\<rparr>"

text \<open>
  The \<open>try\<close> block: the upstream calls issued, the lines written to the console, and
  either the error thrown (\<open>Inl\<close>) or the response returned. A \<open>jsonResponse\<close> that throws
  throws inside the block. The origin passed to the last \<open>jsonResponse\<close> is the header's
  value, which is a string there.
\<close>

definition try_block ::
  "network \<Rightarrow> string \<Rightarrow> string option \<Rightarrow> Request
     \<Rightarrow> UpstreamCall list \<times> (string \<times> string) list \<times> (string + Response)" where
  "try_block net GEMINI_API_KEY origin request =
     (case body_json request of
        Inl err \<Rightarrow> ([], [], Inl err)
      | Inr body \<Rightarrow>
         (case get_prop body ''message'' of
            Inl err \<Rightarrow> ([], [], Inl err)
          | Inr message \<Rightarrow>
              if \<not> truthy message \<or> typeof message \<noteq> ''string''
              then ([], [], jsonResponse (JObj [(''error'', JStr Mensagem_invalida)]) 400 None)
              else
                (let sanitizedMessage = substring (string_of message) 0 1000
                 in case get_prop body ''contents'' of
                      Inl err \<Rightarrow> ([], [], Inl err)
                    | Inr contents \<Rightarrow>
                       (let call = gemini_call GEMINI_API_KEY (geminiRequest contents sanitizedMessage)
                        in case net call of
                             Inl err \<Rightarrow> ([call], [], Inl err)
                           | Inr geminiResponse \<Rightarrow>
                               if \<not> ok geminiResponse
                               then
                                 (case up_text geminiResponse of
                                    Inl err \<Rightarrow> ([call], [], Inl err)
                                  | Inr errorText \<Rightarrow>
                                      ([call], [(''Gemini API Error:'', errorText)],
                                       jsonResponse
                                         (JObj [(''error'', JStr ''Erro ao processar com IA''),
                                                (''details'',
                                                   JStr (if up_status geminiResponse = 429
                                                         then ''Rate limit da API''
                                                         else ''Erro interno''))])
                                         (up_status geminiResponse) None))
                               else
                                 (case up_json geminiResponse of
                                    Inl err \<Rightarrow> ([call], [], Inl err)
                                  | Inr geminiData \<Rightarrow>
                                      ([call], [],
                                       jsonResponse geminiData 200
                                         (Some (case origin of None \<Rightarrow> ''null'' | Some v \<Rightarrow> v))))))))"

record Outcome =
  response :: Response
  upstream_calls :: "UpstreamCall list"
  console :: "(string \<times> string) list"
  rateLimitCache :: RateMap

text \<open>
  \<open>fetch\<close>: \<open>net\<close> is the network behind the global \<open>fetch\<close>, \<open>now\<close> and \<open>swept\<close> are the
  two clock readings of \<open>checkRateLimit\<close>, which are taken only where it is called.
\<close>

definition fetch :: "network \<Rightarrow> string \<Rightarrow> int \<Rightarrow> int \<Rightarrow> Request \<Rightarrow> RateMap \<Rightarrow> Outcome" where
  "fetch net GEMINI_API_KEY now swept request cache =
     (if request_method request = ''OPTIONS''
      then \<lparr>response = handleCORS, upstream_calls = [], console = [], rateLimitCache = cache\<rparr>
      else if request_method request \<noteq> ''POST''
      then \<lparr>response = returned (jsonResponse (JObj [(''error'', JStr Metodo_nao_permitido)]) 405 None),
            upstream_calls = [], console = [], rateLimitCache = cache\<rparr>
      else
        (let origin = header_Origin request
         in if \<not> Array_includes ALLOWED_ORIGINS origin \<and> \<not> optional_includes origin ''127.0.0.1''
            then \<lparr>response =
                    returned (jsonResponse (JObj [(''error'', JStr Origem_nao_autorizada)]) 403 None),
                  upstream_calls = [], console = [], rateLimitCache = cache\<rparr>
            else
              (case checkRateLimit now swept (clientIP request) cache of
                 (admitted, cache') \<Rightarrow>
                   if \<not> admitted
                   then \<lparr>response =
                           returned
                             (jsonResponse
                                (JObj [(''error'',
                                        JStr ''Rate limit excedido. Tente novamente em alguns segundos.'')])
                                429 None),
                         upstream_calls = [], console = [], rateLimitCache = cache'\<rparr>
                   else
                     (case try_block net GEMINI_API_KEY origin request of
                        (calls, logs, Inr resp) \<Rightarrow>
                          \<lparr>response = resp, upstream_calls = calls, console = logs,
                           rateLimitCache = cache'\<rparr>
                      | (calls, logs, Inl err) \<Rightarrow>
                          \<lparr>response =
                             returned
                               (jsonResponse
                                  (JObj [(''error'', JStr ''Erro interno do servidor''),
                                         (''message'', JStr err)])
                                  500 None),
                           upstream_calls = calls,
                           console = logs @ [(''Proxy Error:'', err)],
                           rateLimitCache = cache'\<rparr>))))"

subsection \<open>Notions used to state the properties\<close>

text \<open>
  A request passes the three gates in front of the \<open>try\<close> block when it is a POST, its
  origin passes the check and the rate limiter admits it.
\<close>

definition admitted_by_gates :: "int \<Rightarrow> int \<Rightarrow> Request \<Rightarrow> RateMap \<Rightarrow> bool" where
  "admitted_by_gates now swept request cache \<longleftrightarrow>
     request_method request = ''POST'' \<and>
     (Array_includes ALLOWED_ORIGINS (header_Origin request) \<or>
      optional_includes (header_Origin request) ''127.0.0.1'') \<and>
     fst (checkRateLimit now swept (clientIP request) cache)"

text \<open>
  The response built in the \<open>catch\<close> block from the message of the error caught.
\<close>

definition catch_all :: "string \<Rightarrow> Response" where
  "catch_all err =
     returned
       (jsonResponse (JObj [(''error'', JStr ''Erro interno do servidor''), (''message'', JStr err)])
          500 None)"

text \<open>
  What the \<open>try\<close> block does once the upstream call \<open>call\<close> has been answered.
\<close>

definition after_call ::
  "string option \<Rightarrow> UpstreamCall \<Rightarrow> string + UpstreamResponse
     \<Rightarrow> UpstreamCall list \<times> (string \<times> string) list \<times> (string + Response)" where
  "after_call origin call answer =
     (case answer of
        Inl err \<Rightarrow> ([call], [], Inl err)
      | Inr geminiResponse \<Rightarrow>
          if \<not> ok geminiResponse
          then
            (case up_text geminiResponse of
               Inl err \<Rightarrow> ([call], [], Inl err)
             | Inr errorText \<Rightarrow>
                 ([call], [(''Gemini API Error:'', errorText)],
                  jsonResponse
                    (JObj [(''error'', JStr ''Erro ao processar com IA''),
                           (''details'',
                              JStr (if up_status geminiResponse = 429
                                    then ''Rate limit da API''
                                    else ''Erro interno''))])
                    (up_status geminiResponse) None))
          else
            (case up_json geminiResponse of
               Inl err \<Rightarrow> ([call], [], Inl err)
             | Inr geminiData \<Rightarrow>
                 ([call], [],
                  jsonResponse geminiData 200
                    (Some (case origin of None \<Rightarrow> ''null'' | Some v \<Rightarrow> v)))))"

text \<open>
  The value of the header \<open>Access-Control-Allow-Origin\<close> of a response.
\<close>

definition Access_Control_Allow_Origin :: "Response \<Rightarrow> string option" where
  "Access_Control_Allow_Origin resp = map_of (headers resp) ''Access-Control-Allow-Origin''"

text \<open>
  The decisions and the final map of successive checks of one client at the given
  times, each check reading the clock once.
\<close>

fun successive_checks :: "int list \<Rightarrow> string \<Rightarrow> RateMap \<Rightarrow> bool list \<times> RateMap" where
  "successive_checks [] ip cache = ([], cache)"
| "successive_checks (t # ts) ip cache =
     (let step = checkRateLimit t t ip cache;
          rest = successive_checks ts ip (snd step)
      in (fst step # fst rest, snd rest))"

subsection \<open>Concrete maps, requests and upstream answers\<close>

definition example_cache :: RateMap where
  "example_cache =
     [(''rate_203.0.113.7'', \<lparr>count = 30, resetAt = 1000\<rparr>),
      (''rate_198.51.100.2'', \<lparr>count = 2, resetAt = 500\<rparr>),
      (''rate_unknown'', \<lparr>count = 12, resetAt = 2000\<rparr>)]"

definition example_request :: Request where
  "example_request =
     \<lparr>request_method = ''POST'',
      header_Origin = Some ''https://envolveai.bot'',
      header_CF_Connecting_IP = Some ''203.0.113.7'',
      body_json = Inr (JObj [(''message'', JStr ''Oi'')])\<rparr>"

definition no_network :: network where
  "no_network call = Inl ''network down''"

definition example_network :: network where
  "example_network call =
     Inr \<lparr>up_status = 200, up_text = Inr ''{}'', up_json = Inr (JObj [(''candidates'', JArr [])])\<rparr>"

definition evil_get_request :: Request where
  "evil_get_request =
     \<lparr>request_method = ''GET'',
      header_Origin = Some ''https://evil.example'',
      header_CF_Connecting_IP = Some ''203.0.113.7'',
      body_json = Inr (JObj [(''message'', JStr ''Oi'')])\<rparr>"

definition invalid_message_request :: Request where
  "invalid_message_request = example_request\<lparr>body_json := Inr (JObj [(''message'', JNum 12345)])\<rparr>"

definition empty_message_request :: Request where
  "empty_message_request = example_request\<lparr>body_json := Inr (JObj [(''message'', JStr [])])\<rparr>"

definition null_body_request :: Request where
  "null_body_request = example_request\<lparr>body_json := Inr JNull\<rparr>"

definition long_message :: string where
  "long_message = replicate 1500 CHR ''a''"

definition long_message_request :: Request where
  "long_message_request =
     example_request\<lparr>body_json := Inr (JObj [(''message'', JStr long_message)])\<rparr>"


lemmas example_simps =
  example_cache_def example_request_def Map_wf_def rate_key_def clientIP_def
  Array_includes_def optional_includes_def ALLOWED_ORIGINS_def

lemmas jsonResponse_simps =
  jsonResponse_def new_Response_def returned_def null_body_status_def

subsection \<open>Facts about the map operations\<close>

lemma Map_get_map_of: "Map_get m k = map_of m k"
  by (induction m) auto

lemma Map_set_update: "Map_set k v m = AList.update k v m"
  by (induction m) auto

lemma Map_delete_delete: "Map_delete k m = AList.delete k m"
  by (induction m) auto

lemma Map_get_set: "Map_get (Map_set k v m) k' = (if k' = k then Some v else Map_get m k')"
  by (simp add: Map_get_map_of Map_set_update update_conv')

lemma Map_get_delete: "Map_get (Map_delete k m) k' = (if k' = k then None else Map_get m k')"
  by (simp add: Map_get_map_of Map_delete_delete delete_conv')

lemma Map_wf_set: "Map_wf m \<Longrightarrow> Map_wf (Map_set k v m)"
  by (simp add: Map_wf_def Map_set_update distinct_update)

lemma Map_wf_delete: "Map_wf m \<Longrightarrow> Map_wf (Map_delete k m)"
  by (simp add: Map_wf_def Map_delete_delete distinct_delete)

lemma Map_wf_get_iff: "Map_wf m \<Longrightarrow> Map_get m k = Some v \<longleftrightarrow> (k, v) \<in> set m"
  by (simp add: Map_wf_def Map_get_map_of)

lemma Map_delete_subset: "set (Map_delete k m) \<subseteq> set m"
  by (induction m) (auto split: if_splits)

subsection \<open>The sweep\<close>

text \<open>
  What the loop leaves under a key: nothing when one of the visited entries has this
  key and is expired, the map's own entry otherwise.
\<close>

lemma Map_get_cleanup_loop:
  "Map_get (cleanup_loop now entries cache) k =
     (if \<exists>r. (k, r) \<in> set entries \<and> now > resetAt r then None else Map_get cache k)"
proof (induction entries arbitrary: cache)
  case Nil
  show ?case by simp
next
  case (Cons e entries)
  obtain key rec where e: "e = (key, rec)" by (cases e)
  show ?case
    unfolding e cleanup_loop.simps Cons.IH
    by (auto simp: Map_get_delete)
qed

lemma Map_wf_cleanup_loop: "Map_wf cache \<Longrightarrow> Map_wf (cleanup_loop now entries cache)"
proof (induction entries arbitrary: cache)
  case Nil
  then show ?case by simp
next
  case (Cons e entries)
  obtain key rec where e: "e = (key, rec)" by (cases e)
  from Cons.prems show ?case
    unfolding e cleanup_loop.simps
    by (intro Cons.IH) (simp add: Map_wf_delete)
qed

lemma set_cleanup_loop: "set (cleanup_loop now entries cache) \<subseteq> set cache"
proof (induction entries arbitrary: cache)
  case Nil
  show ?case by simp
next
  case (Cons e entries)
  obtain key rec where e: "e = (key, rec)" by (cases e)
  have "set (cleanup_loop now (e # entries) cache)
          \<subseteq> set (if now > resetAt rec then Map_delete key cache else cache)"
    unfolding e cleanup_loop.simps by (rule Cons.IH)
  also have "\<dots> \<subseteq> set cache"
    using Map_delete_subset [of key cache] by simp
  finally show ?case .
qed

lemma Map_get_cleanupRateLimit:
  assumes "Map_wf cache"
  shows "Map_get (cleanupRateLimit now cache) k =
           (case Map_get cache k of
              None \<Rightarrow> None
            | Some r \<Rightarrow> if now > resetAt r then None else Some r)"
proof (cases "Map_get cache k")
  case None
  then show ?thesis
    by (simp add: cleanupRateLimit_def Map_get_cleanup_loop)
next
  case (Some r)
  have "(k, r') \<in> set cache \<longleftrightarrow> r' = r" for r'
    using assms Some by (auto simp flip: Map_wf_get_iff)
  with Some show ?thesis
    by (simp add: cleanupRateLimit_def Map_get_cleanup_loop)
qed

lemma Map_wf_cleanupRateLimit: "Map_wf cache \<Longrightarrow> Map_wf (cleanupRateLimit now cache)"
  by (simp add: cleanupRateLimit_def Map_wf_cleanup_loop)

text \<open>
  The invariant of the map: it holds of the empty map the module starts with, and a
  check keeps it.
\<close>

lemma Map_wf_empty: "Map_wf []"
  by (simp add: Map_wf_def)

lemma Map_wf_checkRateLimit:
  "Map_wf cache \<Longrightarrow> Map_wf (snd (checkRateLimit now swept ip cache))"
  by (simp add: checkRateLimit_def Let_def Map_wf_set Map_wf_cleanupRateLimit
      split: option.splits)

lemma cleanup_loop_filter:
  "cleanup_loop now entries cache =
     filter (\<lambda>e. \<not> (\<exists>r. (fst e, r) \<in> set entries \<and> now > resetAt r)) cache"
proof (induction entries arbitrary: cache)
  case Nil
  show ?case by simp
next
  case (Cons e entries)
  obtain key rec where e: "e = (key, rec)" by (cases e)
  have del: "Map_delete key cache = filter (\<lambda>x. fst x \<noteq> key) cache"
    by (induction cache) auto
  show ?case
    unfolding e cleanup_loop.simps Cons.IH
    by (auto simp: del intro!: filter_cong)
qed

lemma cleanupRateLimit_filter:
  assumes "Map_wf cache"
  shows "cleanupRateLimit now cache = filter (\<lambda>(k, r). \<not> now > resetAt r) cache"
proof -
  have "(\<exists>r. (fst e, r) \<in> set cache \<and> now > resetAt r) \<longleftrightarrow> now > resetAt (snd e)"
    if "e \<in> set cache" for e
  proof -
    from that have "Map_get cache (fst e) = Some (snd e)"
      using assms by (simp add: Map_wf_get_iff)
    then have "(fst e, r) \<in> set cache \<longleftrightarrow> r = snd e" for r
      using assms by (auto simp flip: Map_wf_get_iff)
    then show ?thesis by simp
  qed
  then show ?thesis
    unfolding cleanupRateLimit_def cleanup_loop_filter
    by (intro filter_cong) (auto simp: case_prod_beta)
qed

lemma checkRateLimit_live:
  assumes "Map_wf cache" and "Map_get cache (rate_key ip) = Some r"
    and "now \<le> resetAt r" and "swept \<le> resetAt r"
  shows "checkRateLimit now swept ip cache =
           (count r + 1 \<le> RATE_LIMIT_REQUESTS,
            Map_set (rate_key ip) (r\<lparr>count := count r + 1\<rparr>) (cleanupRateLimit swept cache))"
  using assms
  by (simp add: checkRateLimit_def Let_def Map_get_cleanupRateLimit)

lemma checkRateLimit_expired:
  assumes "Map_wf cache"
    and "case Map_get cache (rate_key ip) of
           None \<Rightarrow> True
         | Some r \<Rightarrow> resetAt r < now \<or> resetAt r < swept"
  shows "checkRateLimit now swept ip cache =
           (True, Map_set (rate_key ip) (fresh_record now) (cleanupRateLimit swept cache))"
  using assms
  by (auto simp: checkRateLimit_def Let_def Map_get_cleanupRateLimit split: option.splits)


subsection \<open>Successive checks of one client\<close>

lemma successive_checks_live:
  assumes "Map_wf cache"
    and "Map_get cache (rate_key ip) = Some r"
    and "\<forall>t \<in> set ts. t \<le> resetAt r"
    and "count r + length ts \<le> RATE_LIMIT_REQUESTS"
  shows "fst (successive_checks ts ip cache) = replicate (length ts) True \<and>
         Map_wf (snd (successive_checks ts ip cache)) \<and>
         Map_get (snd (successive_checks ts ip cache)) (rate_key ip) =
           Some (r\<lparr>count := count r + length ts\<rparr>)"
  using assms
proof (induction ts arbitrary: cache r)
  case Nil
  then show ?case by simp
next
  case (Cons t ts)
  let ?r = "r\<lparr>count := count r + 1\<rparr>"
  let ?cache = "Map_set (rate_key ip) ?r (cleanupRateLimit t cache)"
  have step: "checkRateLimit t t ip cache = (True, ?cache)"
    using Cons.prems by (simp add: checkRateLimit_live)
  have "Map_wf ?cache"
    using Cons.prems(1) by (simp add: Map_wf_set Map_wf_cleanupRateLimit)
  moreover have "Map_get ?cache (rate_key ip) = Some ?r"
    by (simp add: Map_get_set)
  moreover have "\<forall>t \<in> set ts. t \<le> resetAt ?r"
    using Cons.prems(3) by simp
  moreover have "count ?r + length ts \<le> RATE_LIMIT_REQUESTS"
    using Cons.prems(4) by simp
  ultimately have "fst (successive_checks ts ip ?cache) = replicate (length ts) True \<and>
         Map_wf (snd (successive_checks ts ip ?cache)) \<and>
         Map_get (snd (successive_checks ts ip ?cache)) (rate_key ip) =
           Some (?r\<lparr>count := count ?r + length ts\<rparr>)"
    by (rule Cons.IH)
  then show ?case
    by (simp add: step Let_def)
qed

lemma successive_checks_append:
  "successive_checks (ts @ us) ip cache =
     (fst (successive_checks ts ip cache)
        @ fst (successive_checks us ip (snd (successive_checks ts ip cache))),
      snd (successive_checks us ip (snd (successive_checks ts ip cache))))"
  by (induction ts arbitrary: cache) (simp_all add: Let_def)

lemma thirty_then_rejected:
  assumes "Map_wf cache"
    and "Map_get cache (rate_key ip) = None"
    and "length ts = 29"
    and "\<forall>t \<in> set (ts @ [t31]). t \<le> t1 + RATE_LIMIT_WINDOW"
  shows "fst (successive_checks (t1 # ts @ [t31]) ip cache) = replicate 30 True @ [False]"
proof -
  let ?r = "fresh_record t1"
  let ?c1 = "Map_set (rate_key ip) ?r (cleanupRateLimit t1 cache)"
  have first: "checkRateLimit t1 t1 ip cache = (True, ?c1)"
    using assms(1,2) by (intro checkRateLimit_expired) simp_all
  have wf1: "Map_wf ?c1"
    using assms(1) by (simp add: Map_wf_set Map_wf_cleanupRateLimit)
  have get1: "Map_get ?c1 (rate_key ip) = Some ?r"
    by (simp add: Map_get_set)
  have "\<forall>t \<in> set ts. t \<le> resetAt ?r"
    using assms(4) by (simp add: fresh_record_def)
  moreover have "count ?r + length ts \<le> RATE_LIMIT_REQUESTS"
    using assms(3) by (simp add: fresh_record_def RATE_LIMIT_REQUESTS_def)
  ultimately have run: "fst (successive_checks ts ip ?c1) = replicate 29 True"
    and wf2: "Map_wf (snd (successive_checks ts ip ?c1))"
    and get2: "Map_get (snd (successive_checks ts ip ?c1)) (rate_key ip) =
           Some (?r\<lparr>count := count ?r + length ts\<rparr>)"
    using successive_checks_live [OF wf1 get1] assms(3) by simp_all
  have last: "\<not> fst (checkRateLimit t31 t31 ip (snd (successive_checks ts ip ?c1)))"
    using assms(3,4) checkRateLimit_live [OF wf2 get2, of t31 t31]
    by (simp add: fresh_record_def RATE_LIMIT_REQUESTS_def)
  have "replicate 30 True = True # replicate 29 True"
    using replicate_Suc [of 29 True] by simp
  with run last show ?thesis
    by (simp add: first successive_checks_append Let_def)
qed

subsection \<open>The paths through the handler\<close>

lemma fetch_OPTIONS:
  "request_method request = ''OPTIONS'' \<Longrightarrow>
   fetch net GEMINI_API_KEY now swept request cache =
     \<lparr>response = handleCORS, upstream_calls = [], console = [], rateLimitCache = cache\<rparr>"
  by (simp add: fetch_def)

lemma fetch_not_POST:
  "request_method request \<noteq> ''OPTIONS'' \<Longrightarrow> request_method request \<noteq> ''POST'' \<Longrightarrow>
   fetch net GEMINI_API_KEY now swept request cache =
     \<lparr>response = returned (jsonResponse (JObj [(''error'', JStr Metodo_nao_permitido)]) 405 None),
      upstream_calls = [], console = [], rateLimitCache = cache\<rparr>"
  by (simp add: fetch_def)

lemma fetch_origin_rejected:
  "request_method request = ''POST'' \<Longrightarrow>
   \<not> Array_includes ALLOWED_ORIGINS (header_Origin request) \<Longrightarrow>
   \<not> optional_includes (header_Origin request) ''127.0.0.1'' \<Longrightarrow>
   fetch net GEMINI_API_KEY now swept request cache =
     \<lparr>response = returned (jsonResponse (JObj [(''error'', JStr Origem_nao_autorizada)]) 403 None),
      upstream_calls = [], console = [], rateLimitCache = cache\<rparr>"
  by (simp add: fetch_def)

lemma fetch_rate_limited:
  "request_method request = ''POST'' \<Longrightarrow>
   Array_includes ALLOWED_ORIGINS (header_Origin request) \<or>
   optional_includes (header_Origin request) ''127.0.0.1'' \<Longrightarrow>
   \<not> fst (checkRateLimit now swept (clientIP request) cache) \<Longrightarrow>
   fetch net GEMINI_API_KEY now swept request cache =
     \<lparr>response =
        returned
          (jsonResponse
             (JObj [(''error'', JStr ''Rate limit excedido. Tente novamente em alguns segundos.'')])
             429 None),
      upstream_calls = [], console = [],
      rateLimitCache = snd (checkRateLimit now swept (clientIP request) cache)\<rparr>"
  by (auto simp: fetch_def split: prod.splits)

lemma fetch_admitted:
  assumes "admitted_by_gates now swept request cache"
  shows "fetch net GEMINI_API_KEY now swept request cache =
           (case try_block net GEMINI_API_KEY (header_Origin request) request of
              (calls, logs, Inr resp) \<Rightarrow>
                \<lparr>response = resp, upstream_calls = calls, console = logs,
                 rateLimitCache = snd (checkRateLimit now swept (clientIP request) cache)\<rparr>
            | (calls, logs, Inl err) \<Rightarrow>
                \<lparr>response = catch_all err, upstream_calls = calls,
                 console = logs @ [(''Proxy Error:'', err)],
                 rateLimitCache = snd (checkRateLimit now swept (clientIP request) cache)\<rparr>)"
  using assms
  by (auto simp: admitted_by_gates_def fetch_def catch_all_def split: prod.splits sum.splits)

lemma fetch_calls:
  "upstream_calls (fetch net GEMINI_API_KEY now swept request cache) =
     (if admitted_by_gates now swept request cache
      then fst (try_block net GEMINI_API_KEY (header_Origin request) request)
      else [])"
proof (cases "admitted_by_gates now swept request cache")
  case True
  then show ?thesis
    by (simp add: fetch_admitted split: prod.splits sum.splits)
next
  case False
  then consider "request_method request = ''OPTIONS''"
    | "request_method request \<noteq> ''OPTIONS''" "request_method request \<noteq> ''POST''"
    | "request_method request = ''POST''"
      "\<not> Array_includes ALLOWED_ORIGINS (header_Origin request)"
      "\<not> optional_includes (header_Origin request) ''127.0.0.1''"
    | "request_method request = ''POST''"
      "Array_includes ALLOWED_ORIGINS (header_Origin request) \<or>
       optional_includes (header_Origin request) ''127.0.0.1''"
      "\<not> fst (checkRateLimit now swept (clientIP request) cache)"
    by (auto simp: admitted_by_gates_def)
  then have "upstream_calls (fetch net GEMINI_API_KEY now swept request cache) = []"
    by cases (simp_all add: fetch_OPTIONS fetch_not_POST fetch_origin_rejected fetch_rate_limited)
  with False show ?thesis by simp
qed

text \<open>The handler keeps the invariant of the map.\<close>

lemma Map_wf_fetch:
  assumes "Map_wf cache"
  shows "Map_wf (rateLimitCache (fetch net GEMINI_API_KEY now swept request cache))"
proof -
  have "rateLimitCache (fetch net GEMINI_API_KEY now swept request cache) = cache \<or>
        rateLimitCache (fetch net GEMINI_API_KEY now swept request cache) =
          snd (checkRateLimit now swept (clientIP request) cache)"
  proof (cases "admitted_by_gates now swept request cache")
    case True
    then show ?thesis
      by (simp add: fetch_admitted split: prod.splits sum.splits)
  next
    case False
    then consider "request_method request = ''OPTIONS''"
      | "request_method request \<noteq> ''OPTIONS''" "request_method request \<noteq> ''POST''"
      | "request_method request = ''POST''"
        "\<not> Array_includes ALLOWED_ORIGINS (header_Origin request)"
        "\<not> optional_includes (header_Origin request) ''127.0.0.1''"
      | "request_method request = ''POST''"
        "Array_includes ALLOWED_ORIGINS (header_Origin request) \<or>
         optional_includes (header_Origin request) ''127.0.0.1''"
        "\<not> fst (checkRateLimit now swept (clientIP request) cache)"
      by (auto simp: admitted_by_gates_def)
    then show ?thesis
      by cases (simp_all add: fetch_OPTIONS fetch_not_POST fetch_origin_rejected fetch_rate_limited)
  qed
  with assms show ?thesis
    by (auto simp: Map_wf_checkRateLimit)
qed

lemma try_block_invalid_message:
  assumes "body_json request = Inr body"
    and "get_prop body ''message'' = Inr message"
    and "\<not> truthy message \<or> typeof message \<noteq> ''string''"
  shows "try_block net GEMINI_API_KEY origin request =
           ([], [], jsonResponse (JObj [(''error'', JStr Mensagem_invalida)]) 400 None)"
  using assms by (auto simp: try_block_def)

lemma invalid_message_400:
  assumes "admitted_by_gates now swept request cache"
    and "body_json request = Inr body"
    and "body \<noteq> JNull"
    and "\<forall>s. get_prop body ''message'' \<noteq> Inr (Some (JStr s))"
  shows "status (response (fetch net GEMINI_API_KEY now swept request cache)) = 400 \<and>
         payload (response (fetch net GEMINI_API_KEY now swept request cache)) =
           Some (JObj [(''error'', JStr Mensagem_invalida)]) \<and>
         upstream_calls (fetch net GEMINI_API_KEY now swept request cache) = []"
proof -
  from assms(3) obtain message where get: "get_prop body ''message'' = Inr message"
    by (cases body) auto
  with assms(4) have "typeof message \<noteq> ''string''"
    by (cases message rule: typeof.cases) auto
  then have "try_block net GEMINI_API_KEY (header_Origin request) request =
          ([], [], jsonResponse (JObj [(''error'', JStr Mensagem_invalida)]) 400 None)"
    using assms(2) get by (intro try_block_invalid_message) auto
  then show ?thesis
    by (simp add: fetch_admitted [OF assms(1)] jsonResponse_simps)
qed

lemma passing_origin_is_string:
  assumes "Array_includes ALLOWED_ORIGINS origin \<or> optional_includes origin ''127.0.0.1''"
  shows "\<exists>v. origin = Some v \<and> v \<noteq> ''*''"
proof (cases origin)
  case None
  with assms show ?thesis
    by (simp add: Array_includes_def optional_includes_def)
next
  case (Some v)
  with assms have "v \<noteq> ''*''"
    by (auto simp: Array_includes_def optional_includes_def ALLOWED_ORIGINS_def)
  with Some show ?thesis by blast
qed

lemma try_block_cors:
  assumes "try_block net GEMINI_API_KEY (Some v) request = (calls, logs, Inr resp)"
  shows "(status resp = 200 \<longrightarrow> Access_Control_Allow_Origin resp = Some v) \<and>
         (status resp \<noteq> 200 \<longrightarrow> Access_Control_Allow_Origin resp = Some ''*'')"
  using assms
  by (auto simp: try_block_def Let_def jsonResponse_simps Access_Control_Allow_Origin_def ok_def
      split: sum.splits if_splits)

lemma try_block_calls_independent:
  "fst (try_block net GEMINI_API_KEY origin request) = fst (try_block net' GEMINI_API_KEY origin request)"
  by (simp add: try_block_def Let_def split: sum.splits)

lemma fst_after_call: "fst (after_call origin call answer) = [call]"
  by (simp add: after_call_def split: sum.splits)

lemma try_block_after_call:
  "try_block net GEMINI_API_KEY origin request =
     (case body_json request of
        Inl err \<Rightarrow> ([], [], Inl err)
      | Inr body \<Rightarrow>
         (case get_prop body ''message'' of
            Inl err \<Rightarrow> ([], [], Inl err)
          | Inr message \<Rightarrow>
              if \<not> truthy message \<or> typeof message \<noteq> ''string''
              then ([], [], jsonResponse (JObj [(''error'', JStr Mensagem_invalida)]) 400 None)
              else
                (case get_prop body ''contents'' of
                   Inl err \<Rightarrow> ([], [], Inl err)
                 | Inr contents \<Rightarrow>
                     after_call origin
                       (gemini_call GEMINI_API_KEY
                          (geminiRequest contents (substring (string_of message) 0 1000)))
                       (net (gemini_call GEMINI_API_KEY
                          (geminiRequest contents (substring (string_of message) 0 1000)))))))"
  unfolding try_block_def after_call_def Let_def by (rule refl)

lemma try_block_issued:
  assumes "fst (try_block net GEMINI_API_KEY origin request) = [call]"
  shows "try_block net GEMINI_API_KEY origin request = after_call origin call (net call)"
proof -
  from assms obtain body where body: "body_json request = Inr body"
    by (cases "body_json request") (simp_all add: try_block_after_call)
  from assms body obtain message where message: "get_prop body ''message'' = Inr message"
    by (cases "get_prop body ''message''") (simp_all add: try_block_after_call)
  from assms body message have valid: "\<not> (\<not> truthy message \<or> typeof message \<noteq> ''string'')"
    by (auto simp: try_block_after_call split: if_splits)
  from assms body message valid obtain contents where
    contents: "get_prop body ''contents'' = Inr contents"
    by (cases "get_prop body ''contents''") (simp_all add: try_block_after_call)
  let ?call = "gemini_call GEMINI_API_KEY
                 (geminiRequest contents (substring (string_of message) 0 1000))"
  have tb: "try_block net GEMINI_API_KEY origin request = after_call origin ?call (net ?call)"
    using body message valid contents by (simp add: try_block_after_call)
  with assms have "?call = call"
    by (simp add: fst_after_call)
  with tb show ?thesis by simp
qed

lemma try_block_upstream_error:
  assumes "fst (try_block net GEMINI_API_KEY origin request) = [call]"
    and "net call = Inr up" and "\<not> ok up" and "up_text up = Inr errorText"
  shows "try_block net GEMINI_API_KEY origin request =
           ([call], [(''Gemini API Error:'', errorText)],
            jsonResponse
              (JObj [(''error'', JStr ''Erro ao processar com IA''),
                     (''details'',
                        JStr (if up_status up = 429 then ''Rate limit da API''
                              else ''Erro interno''))])
              (up_status up) None)"
  using assms(2-4) by (simp add: try_block_issued [OF assms(1)] after_call_def)

text \<open>
  The constructor accepts a body with every status from 200 to 599 that is not a
  null-body status; among them are the literals the handler passes.
\<close>

lemma jsonResponse_accepted:
  assumes "200 \<le> st" and "st \<le> 599" and "\<not> null_body_status st"
  shows "jsonResponse data st origin =
           Inr \<lparr>status = st,
                headers =
                  [(''Content-Type'', ''application/json''),
                   (''Access-Control-Allow-Origin'', (case origin of None \<Rightarrow> ''*'' | Some v \<Rightarrow> v)),
                   (''Access-Control-Allow-Methods'', ''POST, OPTIONS''),
                   (''Access-Control-Allow-Headers'', ''Content-Type''),
                   (''X-Content-Type-Options'', ''nosniff''),
                   (''X-Frame-Options'', ''DENY''),
                   (''X-XSS-Protection'', ''1; mode=block'')],
                payload = Some data\<rparr>"
  using assms by (simp add: jsonResponse_def new_Response_def)

text \<open>
  An upstream error whose status the constructor accepts and whose body can be read is
  passed on with its status and the fixed body; its text goes to the console only.
  When the body cannot be read, the catch-all answers 500.
\<close>

lemma upstream_error_passthrough:
  assumes "upstream_calls (fetch net GEMINI_API_KEY now swept request cache) = [call]"
    and "net call = Inr up"
    and "\<not> ok up"
    and "up_text up = Inr errorText"
    and "200 \<le> up_status up" and "up_status up \<le> 599" and "\<not> null_body_status (up_status up)"
  shows "status (response (fetch net GEMINI_API_KEY now swept request cache)) = up_status up \<and>
         payload (response (fetch net GEMINI_API_KEY now swept request cache)) =
           Some (JObj [(''error'', JStr ''Erro ao processar com IA''),
                       (''details'',
                          JStr (if up_status up = 429 then ''Rate limit da API''
                                else ''Erro interno''))]) \<and>
         console (fetch net GEMINI_API_KEY now swept request cache) =
           [(''Gemini API Error:'', errorText)] \<and>
         (\<forall>other.
            response (fetch (net(call := Inr (up\<lparr>up_text := Inr other\<rparr>)))
                        GEMINI_API_KEY now swept request cache) =
            response (fetch net GEMINI_API_KEY now swept request cache))"
proof -
  from assms(1) have adm: "admitted_by_gates now swept request cache"
    by (auto simp: fetch_calls split: if_splits)
  with assms(1) have issued: "fst (try_block net GEMINI_API_KEY (header_Origin request) request) = [call]"
    by (simp add: fetch_calls)
  note tb = try_block_upstream_error [OF issued assms(2-4)]
  note acc = jsonResponse_accepted [OF assms(5-7)]
  have "response (fetch (net(call := Inr (up\<lparr>up_text := Inr other\<rparr>)))
                        GEMINI_API_KEY now swept request cache) =
        response (fetch net GEMINI_API_KEY now swept request cache)" for other
  proof -
    let ?up = "up\<lparr>up_text := Inr other\<rparr>"
    let ?net = "net(call := Inr ?up)"
    have "fst (try_block ?net GEMINI_API_KEY (header_Origin request) request) = [call]"
      using issued try_block_calls_independent [of ?net GEMINI_API_KEY "header_Origin request" request net]
      by simp
    moreover have "?net call = Inr ?up"
      by simp
    moreover have "\<not> ok ?up"
      using assms(3) by (simp add: ok_def)
    moreover have "up_text ?up = Inr other"
      by simp
    ultimately have "try_block ?net GEMINI_API_KEY (header_Origin request) request =
           ([call], [(''Gemini API Error:'', other)],
            jsonResponse
              (JObj [(''error'', JStr ''Erro ao processar com IA''),
                     (''details'',
                        JStr (if up_status ?up = 429 then ''Rate limit da API''
                              else ''Erro interno''))])
              (up_status ?up) None)"
      by (rule try_block_upstream_error)
    with tb show ?thesis
      by (simp add: fetch_admitted [OF adm] acc)
  qed
  with tb show ?thesis
    by (simp add: fetch_admitted [OF adm] acc)
qed

lemma upstream_text_rejected:
  assumes "upstream_calls (fetch net GEMINI_API_KEY now swept request cache) = [call]"
    and "net call = Inr up"
    and "\<not> ok up"
    and "up_text up = Inl err"
  shows "response (fetch net GEMINI_API_KEY now swept request cache) = catch_all err \<and>
         status (catch_all err) = 500"
proof -
  from assms(1) have adm: "admitted_by_gates now swept request cache"
    by (auto simp: fetch_calls split: if_splits)
  with assms(1) have issued: "fst (try_block net GEMINI_API_KEY (header_Origin request) request) = [call]"
    by (simp add: fetch_calls)
  from assms(2-4) show ?thesis
    by (simp add: fetch_admitted [OF adm] try_block_issued [OF issued] after_call_def)
       (simp add: catch_all_def jsonResponse_simps)
qed

text \<open>
  Every response of the handler is one it constructed: no exception escapes it.
\<close>

lemma jsonResponse_headers:
  "jsonResponse data st origin = Inr resp \<Longrightarrow> headers resp \<noteq> []"
  by (auto simp: jsonResponse_def new_Response_def split: if_splits)

lemma after_call_headers:
  "after_call origin call answer = (calls, logs, Inr resp) \<Longrightarrow> headers resp \<noteq> []"
  by (auto simp: after_call_def split: sum.splits if_splits dest: jsonResponse_headers)

lemma try_block_headers:
  assumes "try_block net GEMINI_API_KEY origin request = (calls, logs, Inr resp)"
  shows "headers resp \<noteq> []"
  using assms
  by (auto simp: try_block_after_call split: sum.splits if_splits
      dest: jsonResponse_headers after_call_headers)

lemma returned_literal_headers:
  assumes "200 \<le> st" and "st \<le> 599" and "\<not> null_body_status st"
  shows "headers (returned (jsonResponse data st origin)) \<noteq> []"
  by (simp add: jsonResponse_accepted [OF assms] returned_def)

lemma handler_catches_everything:
  "headers (response (fetch net GEMINI_API_KEY now swept request cache)) \<noteq> [] \<and>
   response (fetch net GEMINI_API_KEY now swept request cache) \<noteq> uncaught_exception_response"
proof -
  have "headers (response (fetch net GEMINI_API_KEY now swept request cache)) \<noteq> []"
  proof (cases "admitted_by_gates now swept request cache")
    case True
    obtain calls logs res where tb:
      "try_block net GEMINI_API_KEY (header_Origin request) request = (calls, logs, res)"
      by (cases "try_block net GEMINI_API_KEY (header_Origin request) request") auto
    show ?thesis
    proof (cases res)
      case (Inl err)
      with tb show ?thesis
        by (simp add: fetch_admitted [OF True] catch_all_def returned_literal_headers
            null_body_status_def)
    next
      case (Inr resp)
      with tb try_block_headers [of net GEMINI_API_KEY "header_Origin request" request calls logs resp]
      show ?thesis
        by (simp add: fetch_admitted [OF True])
    qed
  next
    case False
    then consider "request_method request = ''OPTIONS''"
      | "request_method request \<noteq> ''OPTIONS''" "request_method request \<noteq> ''POST''"
      | "request_method request = ''POST''"
        "\<not> Array_includes ALLOWED_ORIGINS (header_Origin request)"
        "\<not> optional_includes (header_Origin request) ''127.0.0.1''"
      | "request_method request = ''POST''"
        "Array_includes ALLOWED_ORIGINS (header_Origin request) \<or>
         optional_includes (header_Origin request) ''127.0.0.1''"
        "\<not> fst (checkRateLimit now swept (clientIP request) cache)"
      by (auto simp: admitted_by_gates_def)
    then show ?thesis
      by cases
        (simp_all add: fetch_OPTIONS fetch_not_POST fetch_origin_rejected fetch_rate_limited
          handleCORS_def jsonResponse_simps)
  qed
  then show ?thesis
    by (auto simp: uncaught_exception_response_def)
qed

lemma substring_prefix: "substring s 0 n = take n s"
  by (simp add: substring_def Let_def min_def)

lemma admitted_by_gates_body [simp]:
  "admitted_by_gates now swept (request\<lparr>body_json := b\<rparr>) cache =
     admitted_by_gates now swept request cache"
  by (simp add: admitted_by_gates_def clientIP_def)

lemma try_block_single_turn:
  assumes "body_json request = Inr (JObj props)"
    and "map_of props ''message'' = Some (JStr message)"
    and "message \<noteq> []"
    and "map_of props ''contents'' = None"
  shows "fst (try_block net GEMINI_API_KEY origin request) =
           [gemini_call GEMINI_API_KEY
              (JObj [(''contents'',
                       JArr [JObj [(''parts'',
                                     JArr [JObj [(''text'', JStr (substring message 0 1000))]])]]),
                     (''generationConfig'', generationConfig)])]"
  using assms
  by (simp add: try_block_def Let_def geminiRequest_def split: sum.splits)

lemma try_block_body_cong:
  assumes "body_json request = Inr (JObj props)"
    and "map_of props ''message'' = Some (JStr message)"
    and "message \<noteq> []"
    and "map_of props ''contents'' = None"
    and "map_of props' ''message'' = Some (JStr (substring message 0 1000))"
    and "map_of props' ''contents'' = None"
  shows "try_block net GEMINI_API_KEY origin (request\<lparr>body_json := Inr (JObj props')\<rparr>) =
         try_block net GEMINI_API_KEY origin request"
  using assms
  by (simp add: try_block_def Let_def substring_prefix)

section \<open>Rate limiting\<close>

text \<open>
  C1. Fixed window per client: a client whose record counts 30 admitted requests is
  refused while the clock readings of the check are not past the record's \<open>resetAt\<close>,
  and the handler answers such a POST from an accepted origin with status 429; once
  \<open>resetAt\<close> lies before the reading \<open>now\<close>, the request is admitted and the client's
  record is a fresh one with \<open>count = 1\<close> and \<open>resetAt = now + 60000\<close>. That a record
  counts 30 after 30 admitted requests of one window, the next one being refused, is
  \<open>thirty_then_rejected\<close>.
\<close>

theorem rate_window:
  assumes "Map_wf cache"
    and "Map_get cache (rate_key ip) = Some r"
    and "count r = 30"
  shows "(now \<le> resetAt r \<and> swept \<le> resetAt r \<longrightarrow>
            \<not> fst (checkRateLimit now swept ip cache) \<and>
            (\<forall>net GEMINI_API_KEY request.
               request_method request = ''POST'' \<and>
               (Array_includes ALLOWED_ORIGINS (header_Origin request) \<or>
                optional_includes (header_Origin request) ''127.0.0.1'') \<and>
               clientIP request = ip \<longrightarrow>
               status (response (fetch net GEMINI_API_KEY now swept request cache)) = 429)) \<and>
         (resetAt r < now \<longrightarrow>
            fst (checkRateLimit now swept ip cache) \<and>
            Map_get (snd (checkRateLimit now swept ip cache)) (rate_key ip) =
              Some \<lparr>count = 1, resetAt = now + 60000\<rparr>)"
proof (intro conjI impI)
  assume live: "now \<le> resetAt r \<and> swept \<le> resetAt r"
  with assms show rejected: "\<not> fst (checkRateLimit now swept ip cache)"
    by (simp add: checkRateLimit_live RATE_LIMIT_REQUESTS_def)
  show "\<forall>net GEMINI_API_KEY request.
          request_method request = ''POST'' \<and>
          (Array_includes ALLOWED_ORIGINS (header_Origin request) \<or>
           optional_includes (header_Origin request) ''127.0.0.1'') \<and>
          clientIP request = ip \<longrightarrow>
          status (response (fetch net GEMINI_API_KEY now swept request cache)) = 429"
    using rejected
    by (auto simp: fetch_def jsonResponse_simps split: prod.splits)
next
  assume "resetAt r < now"
  with assms have "checkRateLimit now swept ip cache =
      (True, Map_set (rate_key ip) (fresh_record now) (cleanupRateLimit swept cache))"
    by (intro checkRateLimit_expired) simp_all
  then show "fst (checkRateLimit now swept ip cache)"
    and "Map_get (snd (checkRateLimit now swept ip cache)) (rate_key ip) =
           Some \<lparr>count = 1, resetAt = now + 60000\<rparr>"
    by (simp_all add: Map_get_set fresh_record_def RATE_LIMIT_WINDOW_def)
qed

theorem rate_window_witness:
  "\<not> fst (checkRateLimit 1000 1000 ''203.0.113.7'' example_cache) \<and>
   status (response (fetch (\<lambda>call. Inl ''unreachable'') ''secret'' 1000 1000
                       example_request example_cache)) = 429 \<and>
   fst (checkRateLimit 1001 1001 ''203.0.113.7'' example_cache) \<and>
   Map_get (snd (checkRateLimit 1001 1001 ''203.0.113.7'' example_cache)) ''rate_203.0.113.7'' =
     Some \<lparr>count = 1, resetAt = 61001\<rparr>"
proof -
  let ?r = "\<lparr>count = 30, resetAt = 1000\<rparr>"
  have wf: "Map_wf example_cache"
    and get: "Map_get example_cache (rate_key ''203.0.113.7'') = Some ?r"
    and cnt: "count ?r = 30"
    by (simp_all add: example_simps)
  note live = rate_window [OF wf get cnt, of 1000 1000]
  note expired = rate_window [OF wf get cnt, of 1001 1001]
  have req: "request_method example_request = ''POST''"
    "Array_includes ALLOWED_ORIGINS (header_Origin example_request)"
    "clientIP example_request = ''203.0.113.7''"
    by (simp_all add: example_simps)
  from live req have "\<not> fst (checkRateLimit 1000 1000 ''203.0.113.7'' example_cache)"
    and "status (response (fetch (\<lambda>call. Inl ''unreachable'') ''secret'' 1000 1000
                       example_request example_cache)) = 429"
    by simp_all
  moreover from expired
  have "fst (checkRateLimit 1001 1001 ''203.0.113.7'' example_cache)"
    and "Map_get (snd (checkRateLimit 1001 1001 ''203.0.113.7'' example_cache)) ''rate_203.0.113.7'' =
     Some \<lparr>count = 1, resetAt = 61001\<rparr>"
    by (simp_all add: rate_key_def)
  ultimately show ?thesis by simp
qed


text \<open>
  C7. A rejection does not reset the window: when the incremented count exceeds the
  budget within a live window, the check refuses and the client's record holds the
  incremented count and the old \<open>resetAt\<close>. Whatever the check decides, the record it
  leaves for the client has another \<open>resetAt\<close> than before only if the old one had
  expired at one of the two clock readings.
\<close>

theorem rejection_keeps_window:
  assumes "Map_wf cache"
    and "Map_get cache (rate_key ip) = Some r"
  shows "(now \<le> resetAt r \<and> swept \<le> resetAt r \<and> count r + 1 > RATE_LIMIT_REQUESTS \<longrightarrow>
            \<not> fst (checkRateLimit now swept ip cache) \<and>
            Map_get (snd (checkRateLimit now swept ip cache)) (rate_key ip) =
              Some \<lparr>count = count r + 1, resetAt = resetAt r\<rparr>) \<and>
         (\<exists>r'. Map_get (snd (checkRateLimit now swept ip cache)) (rate_key ip) = Some r' \<and>
               (resetAt r' \<noteq> resetAt r \<longrightarrow> resetAt r < now \<or> resetAt r < swept))"
proof (cases "now \<le> resetAt r \<and> swept \<le> resetAt r")
  case True
  with assms have "checkRateLimit now swept ip cache =
      (count r + 1 \<le> RATE_LIMIT_REQUESTS,
       Map_set (rate_key ip) (r\<lparr>count := count r + 1\<rparr>) (cleanupRateLimit swept cache))"
    by (simp add: checkRateLimit_live)
  then show ?thesis
    by (simp add: Map_get_set)
next
  case False
  with assms have "checkRateLimit now swept ip cache =
      (True, Map_set (rate_key ip) (fresh_record now) (cleanupRateLimit swept cache))"
    by (intro checkRateLimit_expired) auto
  with False show ?thesis
    by (auto simp: Map_get_set)
qed

theorem rejection_keeps_window_witness:
  "\<not> fst (checkRateLimit 400 400 ''203.0.113.7'' example_cache) \<and>
   Map_get (snd (checkRateLimit 400 400 ''203.0.113.7'' example_cache)) ''rate_203.0.113.7'' =
     Some \<lparr>count = 31, resetAt = 1000\<rparr> \<and>
   (\<exists>r'. Map_get (snd (checkRateLimit 1001 1001 ''203.0.113.7'' example_cache))
           ''rate_203.0.113.7'' = Some r' \<and>
         resetAt r' \<noteq> 1000 \<and> (1000::int) < 1001)"
proof -
  have replaced:
    "Map_get (snd (checkRateLimit 1001 1001 ''203.0.113.7'' example_cache)) ''rate_203.0.113.7'' =
       Some \<lparr>count = 1, resetAt = 61001\<rparr>"
    by (simp add: example_cache_def checkRateLimit_def cleanupRateLimit_def rate_key_def
        fresh_record_def RATE_LIMIT_WINDOW_def)
  let ?r = "\<lparr>count = 30, resetAt = 1000\<rparr>"
  have wf: "Map_wf example_cache"
    and get: "Map_get example_cache (rate_key ''203.0.113.7'') = Some ?r"
    by (simp_all add: example_simps)
  have live: "400 \<le> resetAt ?r \<and> 400 \<le> resetAt ?r \<and> count ?r + 1 > RATE_LIMIT_REQUESTS"
    by (simp add: RATE_LIMIT_REQUESTS_def)
  from rejection_keeps_window [OF wf get, of 400 400] live
  have "\<not> fst (checkRateLimit 400 400 ''203.0.113.7'' example_cache)"
    and "Map_get (snd (checkRateLimit 400 400 ''203.0.113.7'' example_cache)) ''rate_203.0.113.7'' =
     Some \<lparr>count = 31, resetAt = 1000\<rparr>"
    by (simp_all add: rate_key_def)
  moreover from rejection_keeps_window [OF wf get, of 1001 1001] replaced
  have "\<exists>r'. Map_get (snd (checkRateLimit 1001 1001 ''203.0.113.7'' example_cache))
           ''rate_203.0.113.7'' = Some r' \<and>
         resetAt r' \<noteq> 1000 \<and> (1000::int) < 1001"
    by (simp add: rate_key_def)
  ultimately show ?thesis by blast
qed

text \<open>
  C8. Lazy sweep: the sweep deletes exactly the entries whose \<open>resetAt\<close> lies before its
  clock reading; after a check whose clock did not run backwards between the two
  readings every record in the map has \<open>resetAt \<ge> now\<close>; and under every key other than
  the client's the map holds what it held before, if that had not expired, and nothing
  otherwise.
\<close>

theorem lazy_sweep:
  assumes "Map_wf cache"
  shows "cleanupRateLimit swept cache = filter (\<lambda>(key, r). \<not> swept > resetAt r) cache \<and>
         (now \<le> swept \<longrightarrow>
            (\<forall>key r. Map_get (snd (checkRateLimit now swept ip cache)) key = Some r \<longrightarrow>
                      resetAt r \<ge> now)) \<and>
         (\<forall>key. key \<noteq> rate_key ip \<longrightarrow>
            Map_get (snd (checkRateLimit now swept ip cache)) key =
              (case Map_get cache key of
                 None \<Rightarrow> None
               | Some r \<Rightarrow> if swept > resetAt r then None else Some r))"
proof (intro conjI allI impI)
  show "cleanupRateLimit swept cache = filter (\<lambda>(key, r). \<not> swept > resetAt r) cache"
    using assms by (rule cleanupRateLimit_filter)
next
  fix key r
  assume mono: "now \<le> swept"
    and kept: "Map_get (snd (checkRateLimit now swept ip cache)) key = Some r"
  from kept show "resetAt r \<ge> now"
    using mono
    by (auto simp: checkRateLimit_def Let_def Map_get_set Map_get_cleanupRateLimit [OF assms]
          fresh_record_def RATE_LIMIT_WINDOW_def
        split: option.splits if_splits)
next
  fix key
  assume "key \<noteq> rate_key ip"
  then have "Map_get (snd (checkRateLimit now swept ip cache)) key =
               Map_get (cleanupRateLimit swept cache) key"
    by (simp add: checkRateLimit_def Let_def Map_get_set split: option.splits)
  then show "Map_get (snd (checkRateLimit now swept ip cache)) key =
              (case Map_get cache key of
                 None \<Rightarrow> None
               | Some r \<Rightarrow> if swept > resetAt r then None else Some r)"
    by (simp add: Map_get_cleanupRateLimit [OF assms])
qed

theorem lazy_sweep_witness:
  "cleanupRateLimit 600 example_cache =
     [(''rate_203.0.113.7'', \<lparr>count = 30, resetAt = 1000\<rparr>),
      (''rate_unknown'', \<lparr>count = 12, resetAt = 2000\<rparr>)] \<and>
   Map_get (snd (checkRateLimit 600 600 ''203.0.113.7'' example_cache)) ''rate_198.51.100.2'' = None \<and>
   Map_get (snd (checkRateLimit 600 600 ''203.0.113.7'' example_cache)) ''rate_unknown'' =
     Some \<lparr>count = 12, resetAt = 2000\<rparr> \<and>
   resetAt \<lparr>count = 12, resetAt = 2000\<rparr> \<ge> 600"
proof -
  have wf: "Map_wf example_cache"
    by (simp add: example_simps)
  note sweep = lazy_sweep [OF wf, of 600 600 "''203.0.113.7''"]
  from sweep have "cleanupRateLimit 600 example_cache =
     [(''rate_203.0.113.7'', \<lparr>count = 30, resetAt = 1000\<rparr>),
      (''rate_unknown'', \<lparr>count = 12, resetAt = 2000\<rparr>)]"
    by (simp add: example_cache_def)
  moreover from sweep
  have "Map_get (snd (checkRateLimit 600 600 ''203.0.113.7'' example_cache)) ''rate_198.51.100.2'' = None"
    by (simp add: example_simps)
  moreover from sweep
  have other: "Map_get (snd (checkRateLimit 600 600 ''203.0.113.7'' example_cache)) ''rate_unknown'' =
     Some \<lparr>count = 12, resetAt = 2000\<rparr>"
    by (simp add: example_simps)
  moreover from sweep other have "resetAt \<lparr>count = 12, resetAt = 2000\<rparr> \<ge> 600"
    by blast
  ultimately show ?thesis by blast
qed

section \<open>Origin gate and CORS headers\<close>

text \<open>
  C3, as stated, fails: the method is checked before the origin, so a GET from an
  origin that is neither listed nor a loopback match is answered with 405, not 403.
\<close>

theorem origin_gate_any_method_counterexample:
  "\<not> Array_includes ALLOWED_ORIGINS (header_Origin evil_get_request) \<and>
   \<not> optional_includes (header_Origin evil_get_request) ''127.0.0.1'' \<and>
   request_method evil_get_request \<noteq> ''OPTIONS'' \<and>
   status (response (fetch no_network ''secret'' 0 0 evil_get_request [])) = 405"
  by (simp add: evil_get_request_def fetch_def jsonResponse_simps Array_includes_def
      optional_includes_def ALLOWED_ORIGINS_def)

text \<open>
  C3, amended. For a request whose \<open>Origin\<close> is neither a member of the allow-list nor
  contains \<open>127.0.0.1\<close>: a POST is answered with 403, an OPTIONS request with the
  preflight response (204), a request of any other method with 405; no upstream call
  is issued and the rate-limit map is left as it was.
\<close>

theorem origin_gate:
  assumes "\<not> Array_includes ALLOWED_ORIGINS (header_Origin request)"
    and "\<not> optional_includes (header_Origin request) ''127.0.0.1''"
  shows "(request_method request = ''POST'' \<longrightarrow>
            status (response (fetch net GEMINI_API_KEY now swept request cache)) = 403) \<and>
         (request_method request = ''OPTIONS'' \<longrightarrow>
            response (fetch net GEMINI_API_KEY now swept request cache) = handleCORS \<and>
            status handleCORS = 204) \<and>
         (request_method request \<noteq> ''POST'' \<and> request_method request \<noteq> ''OPTIONS'' \<longrightarrow>
            status (response (fetch net GEMINI_API_KEY now swept request cache)) = 405) \<and>
         upstream_calls (fetch net GEMINI_API_KEY now swept request cache) = [] \<and>
         rateLimitCache (fetch net GEMINI_API_KEY now swept request cache) = cache"
  using assms
  by (simp add: fetch_def jsonResponse_simps handleCORS_def)

theorem origin_gate_witness:
  "status (response (fetch no_network ''secret'' 0 0 (evil_get_request\<lparr>request_method := ''POST''\<rparr>) [])) = 403 \<and>
   response (fetch no_network ''secret'' 0 0 (evil_get_request\<lparr>request_method := ''OPTIONS''\<rparr>) []) = handleCORS \<and>
   status (response (fetch no_network ''secret'' 0 0 evil_get_request [])) = 405"
proof -
  have a: "\<not> Array_includes ALLOWED_ORIGINS (header_Origin (evil_get_request\<lparr>request_method := m\<rparr>))"
    and b: "\<not> optional_includes (header_Origin (evil_get_request\<lparr>request_method := m\<rparr>)) ''127.0.0.1''" for m
    by (simp_all add: evil_get_request_def Array_includes_def optional_includes_def ALLOWED_ORIGINS_def)
  from origin_gate [OF a b, of "''POST''" no_network "''secret''" 0 0 "[]"]
  have "status (response (fetch no_network ''secret'' 0 0 (evil_get_request\<lparr>request_method := ''POST''\<rparr>) [])) = 403"
    by simp
  moreover from origin_gate [OF a b, of "''OPTIONS''" no_network "''secret''" 0 0 "[]"]
  have "response (fetch no_network ''secret'' 0 0 (evil_get_request\<lparr>request_method := ''OPTIONS''\<rparr>) []) = handleCORS"
    by simp
  moreover from origin_gate [OF a b, of "''GET''" no_network "''secret''" 0 0 "[]"]
  have "status (response (fetch no_network ''secret'' 0 0 evil_get_request [])) = 405"
    by (simp add: evil_get_request_def)
  ultimately show ?thesis by simp
qed

text \<open>
  C9. A POST without an \<open>Origin\<close> header is answered with 403: \<open>null\<close> is not in the
  allow-list and the optional-chained loopback test is falsy for it. No upstream call is
  issued and the rate limiter is not consulted.
\<close>

theorem missing_origin_rejected:
  assumes "request_method request = ''POST''"
    and "header_Origin request = None"
  shows "status (response (fetch net GEMINI_API_KEY now swept request cache)) = 403 \<and>
         payload (response (fetch net GEMINI_API_KEY now swept request cache)) =
           Some (JObj [(''error'', JStr Origem_nao_autorizada)]) \<and>
         upstream_calls (fetch net GEMINI_API_KEY now swept request cache) = [] \<and>
         rateLimitCache (fetch net GEMINI_API_KEY now swept request cache) = cache"
  using assms
  by (simp add: fetch_def jsonResponse_simps Array_includes_def optional_includes_def)

theorem missing_origin_rejected_witness:
  "status (response (fetch no_network ''secret'' 0 0
             (example_request\<lparr>header_Origin := None\<rparr>) example_cache)) = 403 \<and>
   upstream_calls (fetch no_network ''secret'' 0 0
             (example_request\<lparr>header_Origin := None\<rparr>) example_cache) = []"
proof -
  have "request_method (example_request\<lparr>header_Origin := None\<rparr>) = ''POST''"
    and "header_Origin (example_request\<lparr>header_Origin := None\<rparr>) = None"
    by (simp_all add: example_request_def)
  from missing_origin_rejected [OF this] show ?thesis
    by blast
qed

text \<open>
  C2, as stated, fails: only the success response is given the origin; every error
  response is built by \<open>jsonResponse\<close> without its third argument and carries the default
  \<open>*\<close>. Here a POST from an allowed origin with a numeric \<open>message\<close> is answered with 400
  and \<open>Access-Control-Allow-Origin: *\<close>.
\<close>

theorem cors_origin_counterexample:
  "request_method invalid_message_request \<noteq> ''OPTIONS'' \<and>
   header_Origin invalid_message_request = Some ''https://envolveai.bot'' \<and>
   Array_includes ALLOWED_ORIGINS (header_Origin invalid_message_request) \<and>
   status (response (fetch no_network ''secret'' 0 0 invalid_message_request [])) = 400 \<and>
   Access_Control_Allow_Origin (response (fetch no_network ''secret'' 0 0 invalid_message_request []))
     = Some ''*''"
  by (simp add: invalid_message_request_def example_simps fetch_def checkRateLimit_def
      cleanupRateLimit_def try_block_def jsonResponse_simps Access_Control_Allow_Origin_def)

text \<open>
  C2, amended. For a request that is not a preflight: the success response (status 200)
  carries \<open>Access-Control-Allow-Origin\<close> equal to the request's \<open>Origin\<close>, which passed the
  origin check and is not \<open>*\<close>; every other response (405, 403, 429, 400, 500 or a
  passed-through upstream status) carries \<open>*\<close>.
\<close>

theorem cors_origin:
  assumes "request_method request \<noteq> ''OPTIONS''"
  shows "(status (response (fetch net GEMINI_API_KEY now swept request cache)) = 200 \<longrightarrow>
            (\<exists>v. header_Origin request = Some v \<and> v \<noteq> ''*'' \<and>
                 Access_Control_Allow_Origin
                   (response (fetch net GEMINI_API_KEY now swept request cache)) = Some v)) \<and>
         (status (response (fetch net GEMINI_API_KEY now swept request cache)) \<noteq> 200 \<longrightarrow>
            Access_Control_Allow_Origin
              (response (fetch net GEMINI_API_KEY now swept request cache)) = Some ''*'')"
proof (cases "admitted_by_gates now swept request cache")
  case True
  then obtain v where v: "header_Origin request = Some v" "v \<noteq> ''*''"
    using passing_origin_is_string [of "header_Origin request"]
    by (auto simp: admitted_by_gates_def)
  obtain calls logs res where tb:
    "try_block net GEMINI_API_KEY (Some v) request = (calls, logs, res)"
    by (cases "try_block net GEMINI_API_KEY (Some v) request") auto
  show ?thesis
  proof (cases res)
    case (Inl err)
    with tb v show ?thesis
      by (simp add: fetch_admitted [OF True] catch_all_def jsonResponse_simps
          Access_Control_Allow_Origin_def)
  next
    case (Inr resp)
    with tb v try_block_cors [of net GEMINI_API_KEY v request calls logs resp] show ?thesis
      by (simp add: fetch_admitted [OF True])
  qed
next
  case False
  then consider "request_method request \<noteq> ''POST''"
    | "request_method request = ''POST''"
      "\<not> Array_includes ALLOWED_ORIGINS (header_Origin request)"
      "\<not> optional_includes (header_Origin request) ''127.0.0.1''"
    | "request_method request = ''POST''"
      "Array_includes ALLOWED_ORIGINS (header_Origin request) \<or>
       optional_includes (header_Origin request) ''127.0.0.1''"
      "\<not> fst (checkRateLimit now swept (clientIP request) cache)"
    by (auto simp: admitted_by_gates_def)
  then show ?thesis
  proof cases
    case 1
    with assms show ?thesis
      by (simp add: fetch_not_POST jsonResponse_simps Access_Control_Allow_Origin_def)
  next
    case 2
    then show ?thesis
      by (simp add: fetch_origin_rejected jsonResponse_simps Access_Control_Allow_Origin_def)
  next
    case 3
    then show ?thesis
      by (simp add: fetch_rate_limited jsonResponse_simps Access_Control_Allow_Origin_def)
  qed
qed

theorem cors_origin_witness:
  "status (response (fetch example_network ''secret'' 0 0 example_request [])) = 200 \<and>
   Access_Control_Allow_Origin (response (fetch example_network ''secret'' 0 0 example_request []))
     = Some ''https://envolveai.bot'' \<and>
   status (response (fetch example_network ''secret'' 0 0 invalid_message_request [])) = 400 \<and>
   Access_Control_Allow_Origin
     (response (fetch example_network ''secret'' 0 0 invalid_message_request [])) = Some ''*''"
proof -
  have ok: "status (response (fetch example_network ''secret'' 0 0 example_request [])) = 200"
    by (simp add: example_simps fetch_def checkRateLimit_def cleanupRateLimit_def try_block_def
        jsonResponse_simps example_network_def ok_def)
  have bad: "status (response (fetch example_network ''secret'' 0 0 invalid_message_request [])) = 400"
    by (simp add: invalid_message_request_def example_simps fetch_def checkRateLimit_def
        cleanupRateLimit_def try_block_def jsonResponse_simps)
  have m1: "request_method example_request \<noteq> ''OPTIONS''"
    and m2: "request_method invalid_message_request \<noteq> ''OPTIONS''"
    by (simp_all add: invalid_message_request_def example_request_def)
  from cors_origin [OF m1, of example_network "''secret''" 0 0 "[]"] ok
  have "Access_Control_Allow_Origin (response (fetch example_network ''secret'' 0 0 example_request []))
     = Some ''https://envolveai.bot''"
    by (auto simp: example_request_def)
  moreover from cors_origin [OF m2, of example_network "''secret''" 0 0 "[]"] bad
  have "Access_Control_Allow_Origin
     (response (fetch example_network ''secret'' 0 0 invalid_message_request [])) = Some ''*''"
    by simp
  ultimately show ?thesis using ok bad by simp
qed

section \<open>Input validation and truncation\<close>

text \<open>
  C5 at the body \<open>null\<close>: the request is a POST from an allowed origin within its
  budget, its body is valid JSON without a \<open>message\<close> field, and the handler answers 500
  with the text of the TypeError raised by \<open>body.message\<close>, not 400. No upstream call is
  issued. For every other body without a string \<open>message\<close> the answer is 400
  (\<open>invalid_message_400\<close>).
\<close>

theorem null_body_is_500:
  "admitted_by_gates 0 0 null_body_request [] \<and>
   body_json null_body_request = Inr JNull \<and>
   status (response (fetch no_network ''secret'' 0 0 null_body_request [])) = 500 \<and>
   payload (response (fetch no_network ''secret'' 0 0 null_body_request [])) =
     Some (JObj [(''error'', JStr ''Erro interno do servidor''),
                 (''message'', JStr (''Cannot read properties of null (reading '' @ [CHR 0x27]
                                       @ ''message'' @ [CHR 0x27] @ '')''))]) \<and>
   upstream_calls (fetch no_network ''secret'' 0 0 null_body_request []) = []"
proof -
  have adm: "admitted_by_gates 0 0 null_body_request []"
    by (simp add: admitted_by_gates_def null_body_request_def example_simps
        checkRateLimit_def cleanupRateLimit_def)
  have body: "body_json null_body_request = Inr JNull"
    by (simp add: null_body_request_def example_request_def)
  have "try_block no_network ''secret'' (header_Origin null_body_request) null_body_request =
          ([], [], Inl (''Cannot read properties of null (reading '' @ [CHR 0x27]
                                       @ ''message'' @ [CHR 0x27] @ '')''))"
    by (simp add: try_block_def body)
  with adm body show ?thesis
    by (simp add: fetch_admitted [OF adm] catch_all_def jsonResponse_simps)
qed

text \<open>
  C10. An admitted POST whose \<open>message\<close> is the empty string is answered with 400 and
  the error \<open>Mensagem_invalida\<close>, and no upstream call is issued: the empty string is
  falsy.
\<close>

theorem empty_message_rejected:
  assumes "admitted_by_gates now swept request cache"
    and "body_json request = Inr body"
    and "get_prop body ''message'' = Inr (Some (JStr []))"
  shows "status (response (fetch net GEMINI_API_KEY now swept request cache)) = 400 \<and>
         payload (response (fetch net GEMINI_API_KEY now swept request cache)) =
           Some (JObj [(''error'', JStr Mensagem_invalida)]) \<and>
         upstream_calls (fetch net GEMINI_API_KEY now swept request cache) = []"
proof -
  have "try_block net GEMINI_API_KEY (header_Origin request) request =
          ([], [], jsonResponse (JObj [(''error'', JStr Mensagem_invalida)]) 400 None)"
    using assms(2,3) by (rule try_block_invalid_message) simp
  then show ?thesis
    by (simp add: fetch_admitted [OF assms(1)] jsonResponse_simps)
qed

theorem empty_message_rejected_witness:
  "status (response (fetch no_network ''secret'' 0 0 empty_message_request [])) = 400 \<and>
   upstream_calls (fetch no_network ''secret'' 0 0 empty_message_request []) = []"
proof -
  have "admitted_by_gates 0 0 empty_message_request []"
    by (simp add: admitted_by_gates_def empty_message_request_def example_simps
        checkRateLimit_def cleanupRateLimit_def)
  moreover have "body_json empty_message_request = Inr (JObj [(''message'', JStr [])])"
    by (simp add: empty_message_request_def example_request_def)
  moreover have "get_prop (JObj [(''message'', JStr [])]) ''message'' = Inr (Some (JStr []))"
    by simp
  ultimately show ?thesis
    using empty_message_rejected [of 0 0 empty_message_request "[]"] by blast
qed

text \<open>
  C6, as stated, fails at the empty message: it has no more than 1000 characters and
  the body has no \<open>contents\<close>, yet the message is not forwarded. The validation answers
  400 and no upstream call is issued.
\<close>

theorem message_truncation_counterexample:
  "admitted_by_gates 0 0 empty_message_request [] \<and>
   body_json empty_message_request = Inr (JObj [(''message'', JStr [])]) \<and>
   get_prop (JObj [(''message'', JStr [])]) ''contents'' = Inr None \<and>
   length ([] :: string) \<le> 1000 \<and>
   upstream_calls (fetch example_network ''secret'' 0 0 empty_message_request []) = [] \<and>
   status (response (fetch example_network ''secret'' 0 0 empty_message_request [])) = 400"
proof -
  have adm: "admitted_by_gates 0 0 empty_message_request []"
    by (simp add: admitted_by_gates_def empty_message_request_def example_simps
        checkRateLimit_def cleanupRateLimit_def)
  have body: "body_json empty_message_request = Inr (JObj [(''message'', JStr [])])"
    by (simp add: empty_message_request_def example_request_def)
  have "try_block example_network ''secret'' (header_Origin empty_message_request)
          empty_message_request =
        ([], [], jsonResponse (JObj [(''error'', JStr Mensagem_invalida)]) 400 None)"
    by (simp add: try_block_def body)
  with adm body show ?thesis
    by (simp add: fetch_admitted [OF adm] jsonResponse_simps)
qed

text \<open>
  C6, amended. For an admitted POST whose body is an object with a non-empty string
  \<open>message\<close> and no \<open>contents\<close>: the handler issues exactly one upstream call, a POST to
  the Gemini endpoint with the key in its header, whose body has the fixed generation
  parameters and a single turn with the first 1000 code units of the message as its
  text. That text is \<open>substring message 0 1000\<close>: of length 1000 when the message is
  longer, the message itself otherwise. Truncating again changes nothing, and the
  handler's outcome is the one for the truncated message, so the truncation raises no
  error of its own. The empty message is not forwarded (it is answered with 400).
\<close>

theorem message_truncation:
  assumes "admitted_by_gates now swept request cache"
    and "body_json request = Inr (JObj props)"
    and "map_of props ''message'' = Some (JStr message)"
    and "message \<noteq> []"
    and "map_of props ''contents'' = None"
  shows "upstream_calls (fetch net GEMINI_API_KEY now swept request cache) =
           [\<lparr>url = ''https://generativelanguage.googleapis.com/v1beta/models/gemini-2.0-flash-exp:generateContent'',
             call_method = ''POST'',
             call_headers =
               [(''Content-Type'', ''application/json''), (''x-goog-api-key'', GEMINI_API_KEY)],
             call_body =
               JObj [(''contents'',
                        JArr [JObj [(''parts'',
                                      JArr [JObj [(''text'', JStr (take 1000 message))]])]]),
                     (''generationConfig'',
                        JObj [(''temperature'', JNum (7 / 10)),
                              (''maxOutputTokens'', JNum 500),
                              (''topP'', JNum (95 / 100)),
                              (''topK'', JNum 40)])]\<rparr>] \<and>
         substring message 0 1000 = take 1000 message \<and>
         (length message > 1000 \<longrightarrow> length (substring message 0 1000) = 1000) \<and>
         (length message \<le> 1000 \<longrightarrow> substring message 0 1000 = message) \<and>
         substring (substring message 0 1000) 0 1000 = substring message 0 1000 \<and>
         (\<forall>props'.
            map_of props' ''message'' = Some (JStr (substring message 0 1000)) \<and>
            map_of props' ''contents'' = None \<longrightarrow>
            fetch net GEMINI_API_KEY now swept (request\<lparr>body_json := Inr (JObj props')\<rparr>) cache =
            fetch net GEMINI_API_KEY now swept request cache)"
proof (intro conjI allI impI)
  show "upstream_calls (fetch net GEMINI_API_KEY now swept request cache) =
           [\<lparr>url = ''https://generativelanguage.googleapis.com/v1beta/models/gemini-2.0-flash-exp:generateContent'',
             call_method = ''POST'',
             call_headers =
               [(''Content-Type'', ''application/json''), (''x-goog-api-key'', GEMINI_API_KEY)],
             call_body =
               JObj [(''contents'',
                        JArr [JObj [(''parts'',
                                      JArr [JObj [(''text'', JStr (take 1000 message))]])]]),
                     (''generationConfig'',
                        JObj [(''temperature'', JNum (7 / 10)),
                              (''maxOutputTokens'', JNum 500),
                              (''topP'', JNum (95 / 100)),
                              (''topK'', JNum 40)])]\<rparr>]"
    using assms(1) try_block_single_turn [OF assms(2-5)]
    by (simp add: fetch_calls gemini_call_def generationConfig_def substring_prefix)
next
  fix props'
  assume "map_of props' ''message'' = Some (JStr (substring message 0 1000)) \<and>
          map_of props' ''contents'' = None"
  then have "try_block net GEMINI_API_KEY (header_Origin request)
               (request\<lparr>body_json := Inr (JObj props')\<rparr>) =
             try_block net GEMINI_API_KEY (header_Origin request) request"
    using assms(2-5) by (intro try_block_body_cong) simp_all
  with assms(1) show "fetch net GEMINI_API_KEY now swept (request\<lparr>body_json := Inr (JObj props')\<rparr>) cache =
            fetch net GEMINI_API_KEY now swept request cache"
    by (simp add: fetch_admitted clientIP_def)
qed (simp_all add: substring_prefix)

theorem message_truncation_witness:
  "upstream_calls (fetch no_network ''secret'' 0 0 long_message_request []) =
     [\<lparr>url = ''https://generativelanguage.googleapis.com/v1beta/models/gemini-2.0-flash-exp:generateContent'',
       call_method = ''POST'',
       call_headers = [(''Content-Type'', ''application/json''), (''x-goog-api-key'', ''secret'')],
       call_body =
         JObj [(''contents'',
                  JArr [JObj [(''parts'',
                                JArr [JObj [(''text'', JStr (replicate 1000 CHR ''a''))]])]]),
               (''generationConfig'',
                  JObj [(''temperature'', JNum (7 / 10)),
                        (''maxOutputTokens'', JNum 500),
                        (''topP'', JNum (95 / 100)),
                        (''topK'', JNum 40)])]\<rparr>] \<and>
   length (substring long_message 0 1000) = 1000 \<and>
   call_body (hd (upstream_calls (fetch no_network ''secret'' 0 0 example_request []))) =
     JObj [(''contents'', JArr [JObj [(''parts'', JArr [JObj [(''text'', JStr ''Oi'')]])]]),
           (''generationConfig'',
              JObj [(''temperature'', JNum (7 / 10)),
                    (''maxOutputTokens'', JNum 500),
                    (''topP'', JNum (95 / 100)),
                    (''topK'', JNum 40)])] \<and>
   fetch no_network ''secret'' 0 0
     (long_message_request\<lparr>body_json :=
        Inr (JObj [(''message'', JStr (replicate 1000 CHR ''a''))])\<rparr>) [] =
   fetch no_network ''secret'' 0 0 long_message_request []"
proof -
  have adm: "admitted_by_gates 0 0 long_message_request []"
    by (simp add: admitted_by_gates_def long_message_request_def example_simps
        checkRateLimit_def cleanupRateLimit_def)
  have body: "body_json long_message_request = Inr (JObj [(''message'', JStr long_message)])"
    by (simp add: long_message_request_def example_request_def)
  have msg: "map_of [(''message'', JStr long_message)] ''message'' = Some (JStr long_message)"
    and nonempty: "long_message \<noteq> []"
    and contents: "map_of [(''message'', JStr long_message)] ''contents'' = None"
    by (simp_all add: long_message_def)
  have long: "length long_message > 1000"
    by (simp add: long_message_def)
  have trunc: "take 1000 long_message = replicate 1000 CHR ''a''"
    by (simp add: long_message_def)
  note long_fact = message_truncation [OF adm body msg nonempty contents, of no_network "''secret''"]
  from long_fact trunc
  have "upstream_calls (fetch no_network ''secret'' 0 0 long_message_request []) =
     [\<lparr>url = ''https://generativelanguage.googleapis.com/v1beta/models/gemini-2.0-flash-exp:generateContent'',
       call_method = ''POST'',
       call_headers = [(''Content-Type'', ''application/json''), (''x-goog-api-key'', ''secret'')],
       call_body =
         JObj [(''contents'',
                  JArr [JObj [(''parts'',
                                JArr [JObj [(''text'', JStr (replicate 1000 CHR ''a''))]])]]),
               (''generationConfig'',
                  JObj [(''temperature'', JNum (7 / 10)),
                        (''maxOutputTokens'', JNum 500),
                        (''topP'', JNum (95 / 100)),
                        (''topK'', JNum 40)])]\<rparr>]"
    by simp
  moreover from long_fact long have "length (substring long_message 0 1000) = 1000"
    by simp
  moreover from long_fact trunc
  have "fetch no_network ''secret'' 0 0
           (long_message_request\<lparr>body_json :=
              Inr (JObj [(''message'', JStr (replicate 1000 CHR ''a''))])\<rparr>) [] =
         fetch no_network ''secret'' 0 0 long_message_request []"
    by simp
  moreover have short: "admitted_by_gates 0 0 example_request []"
    "body_json example_request = Inr (JObj [(''message'', JStr ''Oi'')])"
    "map_of [(''message'', JStr ''Oi'')] ''message'' = Some (JStr ''Oi'')"
    "''Oi'' \<noteq> []"
    "map_of [(''message'', JStr ''Oi'')] ''contents'' = None"
    by (simp_all add: admitted_by_gates_def example_simps checkRateLimit_def cleanupRateLimit_def)
  from message_truncation [OF short, of no_network "''secret''"]
  have "call_body (hd (upstream_calls (fetch no_network ''secret'' 0 0 example_request []))) =
     JObj [(''contents'', JArr [JObj [(''parts'', JArr [JObj [(''text'', JStr ''Oi'')]])]]),
           (''generationConfig'',
              JObj [(''temperature'', JNum (7 / 10)),
                    (''maxOutputTokens'', JNum 500),
                    (''topP'', JNum (95 / 100)),
                    (''topK'', JNum 40)])]"
    by simp
  ultimately show ?thesis by simp
qed

section \<open>Upstream errors\<close>


end
